theory Spec2Isabelle
  imports Main "HOL-Library.AList"
begin

section \<open>The cops and robber game on an edge periodic graph\<close>

text \<open>
  The module \<^verbatim>\<open>cop_robber_game.py\<close> builds the game graph of the k-cops and robber game
  on an edge periodic graph \<open>(V, E, tau)\<close>, turns it into a reachability game and reads
  the verdict off the attractor that the function \<^verbatim>\<open>get_attractor\<close> of another module
  computes.

  Vertices are values of a type \<open>'v\<close>. An edge is a pair of vertices, a presence pattern
  is a string, and the dictionary \<open>tau\<close> is an association list in insertion order,
  looked up with \<open>map_of\<close>; the argument \<open>tau\<close> of the functions is optional (\<open>None\<close>).
  A state \<^verbatim>\<open>(*c, r, s, t)\<close> of the game graph is the tuple of the list of the cops'
  positions, the position of the robber, the turn flag and the time. Lengths and times are
  natural numbers; the number of cops \<open>k\<close> is an integer, since nothing in the code keeps
  it from being negative.
\<close>

type_synonym 'v edge = "'v \<times> 'v"
type_synonym 'v presence = "('v edge \<times> string) list"
type_synonym 'v state = "'v list \<times> 'v \<times> bool \<times> nat"
type_synonym 'v arc = "'v state \<times> 'v state"

text \<open>Every exception that the code can raise is a value.\<close>

datatype error = NameError | ZeroDivisionError | ValueError | KeyError | IndexError | TypeError

subsection \<open>The names of the module\<close>

text \<open>
  A global name is looked up when the line that uses it runs, and the lookup of a name
  that the module does not bind raises \<^verbatim>\<open>NameError\<close>. The functions below take the list
  of the names that are bound; \<open>module_globals\<close> is the list that the file itself binds
  (lines 7 to 15 and the three functions).
\<close>

definition module_globals :: "string list" where
  "module_globals =
     [''math'', ''functools'', ''itertools'', ''copy'', ''get_attractor'',
      ''MAX_POOL_PROCESSES'', ''MAX_QUEUE_SIZE'',
      ''get_game_graph'', ''game_graph_to_reachability_game'', ''is_kcop_win'']"

definition lookup_global :: "string list \<Rightarrow> string \<Rightarrow> error + unit" where
  "lookup_global names x = (if x \<in> set names then Inr () else Inl NameError)"

subsection \<open>The adjacency matrix (lines 28 to 34)\<close>

text \<open>
  Line 28: a \<open>tau\<close> that is not given becomes the dictionary that maps every edge of \<open>E\<close>
  to the pattern \<^verbatim>\<open>'1'\<close>. A key that occurs twice in \<open>E\<close> is one key of the dictionary, at
  the place of its first occurrence.
\<close>

definition static_tau :: "'v edge list \<Rightarrow> 'v presence" where
  "static_tau E = map (\<lambda>e. (e, ''1'')) (rev (remdups (rev E)))"

definition tau_or_static :: "'v edge list \<Rightarrow> 'v presence option \<Rightarrow> 'v presence" where
  "tau_or_static E tau = (case tau of None \<Rightarrow> static_tau E | Some d \<Rightarrow> d)"

text \<open>Line 31: the dictionary comprehension keeps, for a vertex that occurs twice, its last index.\<close>

definition vertex_index :: "'v list \<Rightarrow> 'v \<Rightarrow> nat option" where
  "vertex_index V = map_of (rev (zip V [0..<length V]))"

text \<open>Lines 32 to 34: the row of \<open>v\<close> holds, for every \<open>u\<close>, the pattern of \<open>(u, v)\<close>, else of \<open>(v, u)\<close>, else \<^verbatim>\<open>'0'\<close>.\<close>

definition adjancy :: "'v list \<Rightarrow> 'v presence \<Rightarrow> string list list" where
  "adjancy V tau =
     map (\<lambda>v. map (\<lambda>u. case map_of tau (u, v) of
                          Some p \<Rightarrow> p
                        | None \<Rightarrow> (case map_of tau (v, u) of Some p \<Rightarrow> p | None \<Rightarrow> ''0'')) V) V"

text \<open>
  The expression \<^verbatim>\<open>adjancy[vertex_index[a]][vertex_index[b]][t % len(...)]\<close> of lines 63
  to 65 and 77 to 78, with the exceptions of its parts in the order of evaluation.
\<close>

definition symbol_at :: "string list list \<Rightarrow> ('v \<Rightarrow> nat option) \<Rightarrow> 'v \<Rightarrow> 'v \<Rightarrow> nat \<Rightarrow> error + char" where
  "symbol_at adj vi a b t =
     (case vi a of None \<Rightarrow> Inl KeyError | Some i \<Rightarrow>
        if length adj \<le> i then Inl IndexError else
        (case vi b of None \<Rightarrow> Inl KeyError | Some j \<Rightarrow>
           if length (adj ! i) \<le> j then Inl IndexError else
           if length (adj ! i ! j) = 0 then Inl ZeroDivisionError
           else Inr (adj ! i ! j ! (t mod length (adj ! i ! j)))))"

subsection \<open>The time horizon (lines 36 to 42)\<close>

text \<open>
  \<^verbatim>\<open>functools.reduce\<close> folds the function from the left, starting with the first
  element; on an empty list it raises \<^verbatim>\<open>TypeError\<close>. The function of line 41 divides by
  the greatest common divisor, which is zero when both arguments are.
\<close>

definition lcm_step :: "nat \<Rightarrow> nat \<Rightarrow> error + nat" where
  "lcm_step x y = (if gcd x y = 0 then Inl ZeroDivisionError else Inr ((x * y) div gcd x y))"

fun reduce_from :: "('a \<Rightarrow> 'a \<Rightarrow> error + 'a) \<Rightarrow> 'a \<Rightarrow> 'a list \<Rightarrow> error + 'a" where
  "reduce_from f acc [] = Inr acc"
| "reduce_from f acc (y # ys) =
     (case f acc y of Inl e \<Rightarrow> Inl e | Inr z \<Rightarrow> reduce_from f z ys)"

fun reduce :: "('a \<Rightarrow> 'a \<Rightarrow> error + 'a) \<Rightarrow> 'a list \<Rightarrow> error + 'a" where
  "reduce f [] = Inl TypeError"
| "reduce f (x # xs) = reduce_from f x xs"

definition pattern_lengths :: "'v presence \<Rightarrow> nat list" where
  "pattern_lengths tau = map (\<lambda>kv. length (snd kv)) tau"

definition time_horizon :: "'v presence \<Rightarrow> error + nat" where
  "time_horizon tau =
     (if length tau = 0 then Inr 1 else reduce lcm_step (pattern_lengths tau))"

subsection \<open>The states (lines 44 to 48)\<close>

text \<open>
  \<^verbatim>\<open>itertools.product(V, repeat=n)\<close> lists the tuples of length \<open>n\<close> in lexicographic
  order and raises \<^verbatim>\<open>ValueError\<close> for a negative \<open>n\<close>; the target \<^verbatim>\<open>*c, r\<close> raises
  \<^verbatim>\<open>ValueError\<close> on the empty tuple. A comprehension evaluates the iterable of an inner
  \<^verbatim>\<open>for\<close> once for every element of the outer one, so none of the two is raised
  when the outer range is empty.
\<close>

fun tuples :: "'a list \<Rightarrow> nat \<Rightarrow> 'a list list" where
  "tuples V 0 = [[]]"
| "tuples V (Suc n) = concat (map (\<lambda>x. map ((#) x) (tuples V n)) V)"

definition product_repeat :: "'a list \<Rightarrow> int \<Rightarrow> error + 'a list list" where
  "product_repeat V n = (if n < 0 then Inl ValueError else Inr (tuples V (nat n)))"

definition unpack_cr :: "'a list \<Rightarrow> error + ('a list \<times> 'a)" where
  "unpack_cr tup = (if tup = [] then Inl ValueError else Inr (butlast tup, last tup))"

fun collect :: "('a \<Rightarrow> error + 'b list) \<Rightarrow> 'a list \<Rightarrow> error + 'b list" where
  "collect f [] = Inr []"
| "collect f (x # xs) =
     (case f x of Inl e \<Rightarrow> Inl e | Inr ys \<Rightarrow>
        (case collect f xs of Inl e \<Rightarrow> Inl e | Inr zs \<Rightarrow> Inr (ys @ zs)))"

definition V_gg :: "'v list \<Rightarrow> int \<Rightarrow> nat \<Rightarrow> error + 'v state list" where
  "V_gg V k th =
     collect (\<lambda>t.
       collect (\<lambda>s.
         case product_repeat V (k + 1) of Inl e \<Rightarrow> Inl e | Inr tups \<Rightarrow>
           collect (\<lambda>tup. case unpack_cr tup of Inl e \<Rightarrow> Inl e
                                              | Inr (c, r) \<Rightarrow> Inr [(c, r, s, t)]) tups)
         [False, True])
       [0..<th]"

subsection \<open>The arcs (lines 50 to 90)\<close>

text \<open>
  The loop of lines 61 to 69 over the slots of the cops: a cop that moves along a pair
  whose symbol is \<^verbatim>\<open>'0'\<close> makes the move invalid. \<^verbatim>\<open>c1[i]\<close> raises \<^verbatim>\<open>IndexError\<close> when \<open>c1\<close> is
  shorter than \<open>c0\<close>.
\<close>

fun valid_flag :: "string list list \<Rightarrow> ('v \<Rightarrow> nat option) \<Rightarrow> nat \<Rightarrow> 'v list \<Rightarrow> 'v list \<Rightarrow> error + bool" where
  "valid_flag adj vi t0 [] c1 = Inr True"
| "valid_flag adj vi t0 (a # c0) [] = Inl IndexError"
| "valid_flag adj vi t0 (a # c0) (b # c1) =
     (if a \<noteq> b then
        (case symbol_at adj vi a b t0 of
           Inl e \<Rightarrow> Inl e
         | Inr x \<Rightarrow> if x = CHR ''0'' then Inr False else valid_flag adj vi t0 c0 c1)
      else valid_flag adj vi t0 c0 c1)"

text \<open>
  The body of the \<^verbatim>\<open>try\<close> of \<open>add_to_arcs\<close> for the pair \<open>(u, v)\<close> that it takes from the
  queue: the result is the list \<open>A_gg\<close> after the call.
\<close>

definition arc_body :: "string list list \<Rightarrow> ('v \<Rightarrow> nat option) \<Rightarrow> nat \<Rightarrow> 'v arc list \<Rightarrow> 'v arc \<Rightarrow> error + 'v arc list" where
  "arc_body adj vi th A_gg uv =
     (case uv of ((c0, r0, s0, t0), (c1, r1, s1, t1)) \<Rightarrow>
        if r0 \<in> set c0 then Inr A_gg
        else if t0 = t1 \<and> \<not> s0 \<and> s1 \<and> r0 = r1 then
          (case valid_flag adj vi t0 c0 c1 of
             Inl e \<Rightarrow> Inl e
           | Inr ok \<Rightarrow> Inr (if ok then A_gg @ [uv] else A_gg))
        else if th = 0 then Inl ZeroDivisionError
        else if (t0 + 1) mod th = t1 \<and> s0 \<and> \<not> s1 \<and> c0 = c1 \<and> r1 \<notin> set c1 then
          (if r0 = r1 then Inr (A_gg @ [uv])
           else (case symbol_at adj vi r0 r1 t0 of
                   Inl e \<Rightarrow> Inl e
                 | Inr x \<Rightarrow> Inr (if x = CHR ''1'' then A_gg @ [uv] else A_gg)))
        else Inr A_gg)"

text \<open>
  Line 81: an exception of the body reaches the clause \<^verbatim>\<open>except Empty\<close>, which looks the
  name \<^verbatim>\<open>Empty\<close> up; the exception of the queue itself is not among the exceptions of
  the body, so with the name bound the exception goes on.
\<close>

definition add_to_arcs :: "string list \<Rightarrow> string list list \<Rightarrow> ('v \<Rightarrow> nat option) \<Rightarrow> nat \<Rightarrow> 'v arc list \<Rightarrow> 'v arc \<Rightarrow> error + 'v arc list" where
  "add_to_arcs names adj vi th A_gg uv =
     (case arc_body adj vi th A_gg uv of
        Inr A \<Rightarrow> Inr A
      | Inl e \<Rightarrow> (case lookup_global names ''Empty'' of Inl e' \<Rightarrow> Inl e' | Inr _ \<Rightarrow> Inl e))"

text \<open>
  Line 83 binds \<open>A_gg\<close> to the empty list and line 84 looks the name \<^verbatim>\<open>mp\<close> up, which the
  module does not bind. The calls of lines 84 to 90 belong to the object that a binding
  of \<^verbatim>\<open>mp\<close> would give; nothing of the module says what they do. They are the parameter
  \<open>pool\<close>: it gets the function \<open>add_to_arcs\<close> (the \<^verbatim>\<open>initializer\<close> of line 85), the list
  \<open>A_gg\<close> and the pairs that line 87 puts on the queue, and its result is an exception
  or the list \<open>A_gg\<close> that line 92 returns.
\<close>

type_synonym 'v pool =
  "('v arc list \<Rightarrow> 'v arc \<Rightarrow> error + 'v arc list) \<Rightarrow> 'v arc list \<Rightarrow> 'v arc list \<Rightarrow> error + 'v arc list"

definition get_game_graph :: "string list \<Rightarrow> 'v pool \<Rightarrow> 'v list \<Rightarrow> 'v edge list \<Rightarrow> 'v presence option \<Rightarrow> int \<Rightarrow> error + ('v state list \<times> 'v arc list)" where
  "get_game_graph names pool V E tau k =
     (let tau' = tau_or_static E tau;
          vi = vertex_index V;
          adj = adjancy V tau'
      in case time_horizon tau' of Inl e \<Rightarrow> Inl e | Inr th \<Rightarrow>
         (case V_gg V k th of Inl e \<Rightarrow> Inl e | Inr vs \<Rightarrow>
            (case lookup_global names ''mp'' of Inl e \<Rightarrow> Inl e | Inr _ \<Rightarrow>
               (case pool (add_to_arcs names adj vi th) [] (List.product vs vs) of
                  Inl e \<Rightarrow> Inl e
                | Inr A \<Rightarrow> Inr (vs, A)))))"

subsection \<open>The reachability game (lines 95 to 113)\<close>

definition partition_step :: "'v state \<Rightarrow> 'v state list \<times> 'v state list \<times> 'v state list \<Rightarrow> 'v state list \<times> 'v state list \<times> 'v state list" where
  "partition_step v acc =
     (case acc of (S0, S1, F) \<Rightarrow>
        (case v of (c, r, s, t) \<Rightarrow>
           let F' = (if r \<in> set c then F @ [v] else F)
           in if s then (S0, S1 @ [v], F') else (S0 @ [v], S1, F')))"

definition game_graph_to_reachability_game :: "'v state list \<Rightarrow> 'v arc list \<Rightarrow> 'v state list \<times> 'v state list \<times> 'v arc list \<times> 'v state list" where
  "game_graph_to_reachability_game vs A_gg =
     (case fold partition_step vs ([], [], []) of (S0, S1, F) \<Rightarrow> (S0, S1, A_gg, F))"

subsection \<open>The verdict (lines 116 to 139)\<close>

text \<open>
  The dictionary \<open>starting_classes\<close> is an association list from the tuples of cops to
  sets of vertices. The function \<^verbatim>\<open>get_attractor\<close> belongs to another module and is a
  parameter.
\<close>

definition class_step :: "'v state \<Rightarrow> ('v list \<times> 'v set) list \<Rightarrow> ('v list \<times> 'v set) list" where
  "class_step v sc =
     (case v of (c, r, s, t) \<Rightarrow>
        if t = 0 \<and> \<not> s then
          (case map_of sc c of
             None \<Rightarrow> AList.update c {r} sc
           | Some cls \<Rightarrow> AList.update c (insert r cls) sc)
        else sc)"

definition starting_classes :: "'v state list \<Rightarrow> ('v list \<times> 'v set) list" where
  "starting_classes attractor = fold class_step attractor []"

fun some_class_full :: "nat \<Rightarrow> 'v set list \<Rightarrow> bool" where
  "some_class_full n [] = False"
| "some_class_full n (cls # rest) = (if card cls = n then True else some_class_full n rest)"

definition verdict :: "'v list \<Rightarrow> 'v state list \<Rightarrow> bool" where
  "verdict V attractor = some_class_full (length V) (map snd (starting_classes attractor))"

definition is_kcop_win :: "string list \<Rightarrow> 'v pool \<Rightarrow> ('v state list \<times> 'v state list \<times> 'v arc list \<times> 'v state list \<Rightarrow> 'v state list) \<Rightarrow> 'v list \<Rightarrow> 'v edge list \<Rightarrow> 'v presence option \<Rightarrow> int \<Rightarrow> error + bool" where
  "is_kcop_win names pool get_attractor V E tau k =
     (case get_game_graph names pool V E tau k of
        Inl e \<Rightarrow> Inl e
      | Inr (vs, A_gg) \<Rightarrow>
          Inr (verdict V (get_attractor (game_graph_to_reachability_game vs A_gg))))"

subsection \<open>The components of a state\<close>

definition cops_of :: "'v state \<Rightarrow> 'v list" where
  "cops_of v = fst v"

definition robber_of :: "'v state \<Rightarrow> 'v" where
  "robber_of v = fst (snd v)"

definition turn_of :: "'v state \<Rightarrow> bool" where
  "turn_of v = fst (snd (snd v))"

definition time_of :: "'v state \<Rightarrow> nat" where
  "time_of v = snd (snd (snd v))"

text \<open>
  The symbol that the code reads for the pair \<open>(a, b)\<close> at the time \<open>t\<close> in a call with the
  arguments \<open>V\<close>, \<open>E\<close> and \<open>tau\<close>.
\<close>

definition presence_symbol :: "'v list \<Rightarrow> 'v edge list \<Rightarrow> 'v presence option \<Rightarrow> 'v \<Rightarrow> 'v \<Rightarrow> nat \<Rightarrow> error + char" where
  "presence_symbol V E tau a b t =
     symbol_at (adjancy V (tau_or_static E tau)) (vertex_index V) a b t"

subsection \<open>Closed forms\<close>

text \<open>
  The definitions of this part are not taken from the code; the lemmas below prove that
  they describe what the code computes. \<open>states_of\<close> is the list of the states for a
  number of cops that is not negative. \<open>pattern_of\<close> is the entry of the adjacency matrix
  that line 63 reads for a cop (or the robber) that goes from \<open>a\<close> to \<open>b\<close>, \<open>sym\<close> is its
  symbol at a time, and \<open>legal\<close> is the condition under which \<open>add_to_arcs\<close> appends the
  pair. \<open>robbers_of\<close> is the set of the positions of the robber that the attractor holds
  for a tuple of cops, at time 0 with the cops to move.
\<close>

definition states_of :: "'v list \<Rightarrow> nat \<Rightarrow> nat \<Rightarrow> 'v state list" where
  "states_of V n th =
     concat (map (\<lambda>t. concat (map (\<lambda>s. concat (map (\<lambda>tup. [(butlast tup, last tup, s, t)])
        (tuples V (Suc n)))) [False, True])) [0..<th])"

definition pattern_of :: "'v presence \<Rightarrow> 'v \<Rightarrow> 'v \<Rightarrow> string" where
  "pattern_of tau a b =
     (case map_of tau (b, a) of Some p \<Rightarrow> p
      | None \<Rightarrow> (case map_of tau (a, b) of Some p \<Rightarrow> p | None \<Rightarrow> ''0''))"

definition sym :: "'v presence \<Rightarrow> 'v \<Rightarrow> 'v \<Rightarrow> nat \<Rightarrow> char" where
  "sym tau a b t = pattern_of tau a b ! (t mod length (pattern_of tau a b))"

definition legal :: "'v presence \<Rightarrow> nat \<Rightarrow> 'v arc \<Rightarrow> bool" where
  "legal tau th uv =
     (case uv of ((c0, r0, s0, t0), (c1, r1, s1, t1)) \<Rightarrow>
        r0 \<notin> set c0 \<and>
        ((t0 = t1 \<and> \<not> s0 \<and> s1 \<and> r0 = r1 \<and>
            (\<forall>i<length c0. c0 ! i = c1 ! i \<or> sym tau (c0 ! i) (c1 ! i) t0 \<noteq> CHR ''0'')) \<or>
         ((t0 + 1) mod th = t1 \<and> s0 \<and> \<not> s1 \<and> c0 = c1 \<and> r1 \<notin> set c1 \<and>
            (r0 = r1 \<or> sym tau r0 r1 t0 = CHR ''1''))))"

definition robbers_of :: "'v state list \<Rightarrow> 'v list \<Rightarrow> 'v set" where
  "robbers_of attractor c = {r. (c, r, False, 0) \<in> set attractor}"

subsection \<open>Pools\<close>

text \<open>
  A pool changes the list only through its function when every element of the list that
  it returns was in the list that it got or was appended by a call of the function.
\<close>

definition only_appends :: "'v pool \<Rightarrow> ('v arc list \<Rightarrow> 'v arc \<Rightarrow> error + 'v arc list) \<Rightarrow> bool" where
  "only_appends pool f \<longleftrightarrow>
     (\<forall>A ps B x. pool f A ps = Inr B \<longrightarrow> x \<in> set B \<longrightarrow>
        x \<in> set A \<or> (\<exists>A0. f A0 x = Inr (A0 @ [x])))"

subsection \<open>Sample data\<close>

text \<open>
  The data of this part are not the module: they are inputs for the lemmas. \<open>pool_globals\<close>
  are the names of a module that also binds \<^verbatim>\<open>mp\<close> and \<^verbatim>\<open>Empty\<close>. \<open>idle_pool\<close> is a pool
  that returns the list as it got it. \<open>sequential_pool\<close> is a pool that calls its
  function once on every pair, in the order of the queue, each call on the list that the
  call before it left; the pool of the library \<^verbatim>\<open>multiprocessing\<close> does not do this (it
  calls an \<^verbatim>\<open>initializer\<close> once in every process, on the copy of the list that the
  process has). \<open>K2_states\<close> and \<open>K2_arcs\<close> are
  what \<open>sequential_pool\<close> gives for one cop on the static graph with the vertices 1 and 2
  and the edge between them. \<open>all_states\<close> returns all the states of a reachability game,
  in the place of \<^verbatim>\<open>get_attractor\<close>.
\<close>

definition pool_globals :: "string list" where
  "pool_globals = ''mp'' # ''Empty'' # module_globals"

definition idle_pool :: "('s \<Rightarrow> 'a \<Rightarrow> error + 's) \<Rightarrow> 's \<Rightarrow> 'a list \<Rightarrow> error + 's" where
  "idle_pool f A ps = Inr A"

fun sequential_pool :: "('s \<Rightarrow> 'a \<Rightarrow> error + 's) \<Rightarrow> 's \<Rightarrow> 'a list \<Rightarrow> error + 's" where
  "sequential_pool f A [] = Inr A"
| "sequential_pool f A (p # ps) =
     (case f A p of Inl e \<Rightarrow> Inl e | Inr A' \<Rightarrow> sequential_pool f A' ps)"

definition K2_states :: "nat state list" where
  "K2_states =
     [([1], 1, False, 0), ([1], 2, False, 0), ([2], 1, False, 0), ([2], 2, False, 0),
      ([1], 1, True, 0), ([1], 2, True, 0), ([2], 1, True, 0), ([2], 2, True, 0)]"

definition K2_arcs :: "nat arc list" where
  "K2_arcs =
     [(([1], 2, False, 0), ([1], 2, True, 0)), (([1], 2, False, 0), ([2], 2, True, 0)),
      (([2], 1, False, 0), ([1], 1, True, 0)), (([2], 1, False, 0), ([2], 1, True, 0)),
      (([1], 2, True, 0), ([1], 2, False, 0)), (([2], 1, True, 0), ([2], 1, False, 0))]"

definition all_states :: "'v state list \<times> 'v state list \<times> 'v arc list \<times> 'v state list \<Rightarrow> 'v state list" where
  "all_states arena = (case arena of (S0, S1, A, F) \<Rightarrow> S0 @ S1)"

text \<open>
  The sets of states and of arcs that the assertions of lines 147 to 185 of the module
  name for one cop on the triangle.
\<close>

definition K3_assert_V_gg :: "nat state set" where
  "K3_assert_V_gg =
     {([1], 1, False, 0), ([1], 1, True, 0), ([1], 2, False, 0),
      ([1], 2, True, 0), ([1], 3, False, 0), ([1], 3, True, 0),
      ([2], 1, False, 0), ([2], 1, True, 0), ([2], 2, False, 0),
      ([2], 2, True, 0), ([2], 3, False, 0), ([2], 3, True, 0),
      ([3], 1, False, 0), ([3], 1, True, 0), ([3], 2, False, 0),
      ([3], 2, True, 0), ([3], 3, False, 0), ([3], 3, True, 0)}"

definition K3_assert_A_gg :: "nat arc set" where
  "K3_assert_A_gg =
     {(([1], 2, False, 0), ([1], 2, True, 0)), (([1], 2, False, 0), ([2], 2, True, 0)),
      (([1], 2, False, 0), ([3], 2, True, 0)), (([1], 2, True, 0), ([1], 2, False, 0)),
      (([1], 2, True, 0), ([1], 3, False, 0)), (([1], 3, False, 0), ([1], 3, True, 0)),
      (([1], 3, False, 0), ([2], 3, True, 0)), (([1], 3, False, 0), ([3], 3, True, 0)),
      (([1], 3, True, 0), ([1], 2, False, 0)), (([1], 3, True, 0), ([1], 3, False, 0)),
      (([2], 1, False, 0), ([1], 1, True, 0)), (([2], 1, False, 0), ([2], 1, True, 0)),
      (([2], 1, False, 0), ([3], 1, True, 0)), (([2], 1, True, 0), ([2], 1, False, 0)),
      (([2], 1, True, 0), ([2], 3, False, 0)), (([2], 3, False, 0), ([1], 3, True, 0)),
      (([2], 3, False, 0), ([2], 3, True, 0)), (([2], 3, False, 0), ([3], 3, True, 0)),
      (([2], 3, True, 0), ([2], 1, False, 0)), (([2], 3, True, 0), ([2], 3, False, 0)),
      (([3], 1, False, 0), ([1], 1, True, 0)), (([3], 1, False, 0), ([2], 1, True, 0)),
      (([3], 1, False, 0), ([3], 1, True, 0)), (([3], 1, True, 0), ([3], 1, False, 0)),
      (([3], 1, True, 0), ([3], 2, False, 0)), (([3], 2, False, 0), ([1], 2, True, 0)),
      (([3], 2, False, 0), ([2], 2, True, 0)), (([3], 2, False, 0), ([3], 2, True, 0)),
      (([3], 2, True, 0), ([3], 1, False, 0)), (([3], 2, True, 0), ([3], 2, False, 0))}"

section \<open>Lemmas\<close>

subsection \<open>The states\<close>

lemma collect_Inr:
  "(\<And>x. x \<in> set xs \<Longrightarrow> f x = Inr (g x)) \<Longrightarrow> collect f xs = Inr (concat (map g xs))"
  by (induction xs) simp_all

lemma collect_Inl:
  "xs \<noteq> [] \<Longrightarrow> (\<And>x. x \<in> set xs \<Longrightarrow> f x = Inl e) \<Longrightarrow> collect f xs = Inl e"
  by (cases xs) simp_all

lemma set_tuples: "set (tuples V n) = {xs. length xs = n \<and> set xs \<subseteq> set V}"
proof (induction n)
  case 0
  show ?case by auto
next
  case (Suc n)
  show ?case
  proof (rule set_eqI)
    fix xs
    show "xs \<in> set (tuples V (Suc n)) \<longleftrightarrow> xs \<in> {xs. length xs = Suc n \<and> set xs \<subseteq> set V}"
      using Suc by (cases xs) auto
  qed
qed

lemma V_gg_zero: "V_gg V k 0 = Inr []"
  by (simp add: V_gg_def)

lemma V_gg_negative:
  assumes "k < 0" and "0 < th"
  shows "V_gg V k th = Inl ValueError"
proof -
  have inner: "(case product_repeat V (k + 1) of Inl e \<Rightarrow> Inl e | Inr tups \<Rightarrow>
           collect (\<lambda>tup. case unpack_cr tup of Inl e \<Rightarrow> Inl e
                                              | Inr (c, r) \<Rightarrow> Inr [(c, r, s, t)]) tups) = Inl ValueError" for s t
  proof (cases "k + 1 < 0")
    case True
    then show ?thesis by (simp add: product_repeat_def)
  next
    case False
    with assms have "k + 1 = 0" by simp
    then show ?thesis by (simp add: product_repeat_def unpack_cr_def)
  qed
  have "[0..<th] \<noteq> []" using assms by simp
  then show ?thesis
    unfolding V_gg_def inner
    by (intro collect_Inl) simp_all
qed

lemma V_gg_nonneg:
  assumes "0 \<le> k"
  shows "V_gg V k th = Inr (states_of V (nat k) th)"
proof -
  have n: "nat (k + 1) = Suc (nat k)" using assms by simp
  have inner: "(case product_repeat V (k + 1) of Inl e \<Rightarrow> Inl e | Inr tups \<Rightarrow>
           collect (\<lambda>tup. case unpack_cr tup of Inl e \<Rightarrow> Inl e
                                              | Inr (c, r) \<Rightarrow> Inr [(c, r, s, t)]) tups)
         = Inr (concat (map (\<lambda>tup. [(butlast tup, last tup, s, t)]) (tuples V (Suc (nat k)))))" for s t
  proof -
    have "collect (\<lambda>tup. case unpack_cr tup of Inl e \<Rightarrow> Inl e
                                              | Inr (c, r) \<Rightarrow> Inr [(c, r, s, t)]) (tuples V (Suc (nat k)))
          = Inr (concat (map (\<lambda>tup. [(butlast tup, last tup, s, t)]) (tuples V (Suc (nat k)))))"
    proof (rule collect_Inr)
      fix x assume "x \<in> set (tuples V (Suc (nat k)))"
      then have "x \<noteq> []" unfolding set_tuples by auto
      then show "(case unpack_cr x of Inl e \<Rightarrow> Inl e | Inr (c, r) \<Rightarrow> Inr [(c, r, s, t)])
                 = Inr [(butlast x, last x, s, t)]"
        by (simp add: unpack_cr_def)
    qed
    then show ?thesis using assms by (simp add: product_repeat_def n)
  qed
  show ?thesis
    unfolding V_gg_def inner states_of_def
    by (intro collect_Inr) simp
qed

lemma in_states_of_tup:
  "(c, r, s, t) \<in> set (states_of V n th) \<longleftrightarrow>
     t < th \<and> (\<exists>tup\<in>set (tuples V (Suc n)). c = butlast tup \<and> r = last tup)"
  unfolding states_of_def by (cases s) (auto simp del: tuples.simps)

lemma in_states_of:
  "(c, r, s, t) \<in> set (states_of V n th) \<longleftrightarrow>
     length c = n \<and> set c \<subseteq> set V \<and> r \<in> set V \<and> t < th"
proof
  assume "(c, r, s, t) \<in> set (states_of V n th)"
  then obtain tup where tup: "tup \<in> set (tuples V (Suc n))" "c = butlast tup" "r = last tup" "t < th"
    unfolding in_states_of_tup by blast
  from tup(1) have l: "length tup = Suc n" "set tup \<subseteq> set V" unfolding set_tuples by auto
  then have ne: "tup \<noteq> []" by auto
  have "set (butlast tup) \<subseteq> set tup" by (meson in_set_butlastD subsetI)
  with l ne tup show "length c = n \<and> set c \<subseteq> set V \<and> r \<in> set V \<and> t < th"
    by (auto dest: last_in_set)
next
  assume a: "length c = n \<and> set c \<subseteq> set V \<and> r \<in> set V \<and> t < th"
  then have "c @ [r] \<in> set (tuples V (Suc n))" unfolding set_tuples by auto
  moreover have "c = butlast (c @ [r])" "r = last (c @ [r])" by simp_all
  ultimately show "(c, r, s, t) \<in> set (states_of V n th)"
    unfolding in_states_of_tup using a by blast
qed

lemma time_of_states_of:
  assumes "V \<noteq> []"
  shows "time_of ` set (states_of V n th) = {0..<th}"
proof -
  obtain x where x: "x \<in> set V" using assms by (cases V) auto
  have "t \<in> time_of ` set (states_of V n th)" if "t < th" for t
  proof -
    have "(replicate n x, x, False, t) \<in> set (states_of V n th)"
      unfolding in_states_of using x that by auto
    then show ?thesis unfolding time_of_def by force
  qed
  moreover have "t < th" if "t \<in> time_of ` set (states_of V n th)" for t
  proof -
    from that obtain c r s where "(c, r, s, t) \<in> set (states_of V n th)"
      unfolding time_of_def by auto
    then show ?thesis unfolding in_states_of by simp
  qed
  ultimately show ?thesis by auto
qed

subsection \<open>The time horizon\<close>

lemma lcm_step_pos: "0 < x \<Longrightarrow> lcm_step x y = Inr (lcm x y)"
  by (simp add: lcm_step_def lcm_nat_def)

lemma lcm_step_zero_l: "lcm_step 0 y = (if y = 0 then Inl ZeroDivisionError else Inr 0)"
  by (simp add: lcm_step_def)

lemma lcm_step_zero_r: "lcm_step x 0 = (if x = 0 then Inl ZeroDivisionError else Inr 0)"
  by (simp add: lcm_step_def)

lemma reduce_from_zero:
  "reduce_from lcm_step 0 ys = (if 0 \<in> set ys then Inl ZeroDivisionError else Inr 0)"
  by (induction ys) (auto simp: lcm_step_zero_l)

lemma reduce_from_count:
  "0 < acc \<Longrightarrow> reduce_from lcm_step acc ys =
     (if count_list ys 0 = 0 then Inr (Lcm (insert acc (set ys)))
      else if count_list ys 0 = 1 then Inr 0 else Inl ZeroDivisionError)"
proof (induction ys arbitrary: acc)
  case Nil
  then show ?case by simp
next
  case (Cons y ys)
  show ?case
  proof (cases "y = 0")
    case True
    then show ?thesis using Cons.prems
      by (auto simp: lcm_step_zero_r reduce_from_zero count_list_0_iff)
  next
    case False
    then have "0 < lcm acc y" using Cons.prems by (simp add: lcm_pos_nat)
    from Cons.IH[OF this] False Cons.prems show ?thesis
      by (simp add: lcm_step_pos lcm.assoc)
  qed
qed

lemma reduce_count:
  "ys \<noteq> [] \<Longrightarrow> reduce lcm_step ys =
     (if count_list ys 0 = 0 then Inr (Lcm (set ys))
      else if count_list ys 0 = 1 then Inr 0 else Inl ZeroDivisionError)"
proof (cases ys)
  case Nil
  then show "ys \<noteq> [] \<Longrightarrow> ?thesis" by simp
next
  case (Cons y rest)
  show ?thesis
  proof (cases "y = 0")
    case True
    then show ?thesis using Cons by (auto simp: reduce_from_zero count_list_0_iff)
  next
    case False
    then show ?thesis using Cons reduce_from_count[of y rest] by simp
  qed
qed

lemma time_horizon_cases:
  "time_horizon tau =
     (if count_list (pattern_lengths tau) 0 = 0 then Inr (Lcm (set (pattern_lengths tau)))
      else if count_list (pattern_lengths tau) 0 = 1 then Inr 0 else Inl ZeroDivisionError)"
proof (cases "tau = []")
  case True
  then show ?thesis by (simp add: time_horizon_def pattern_lengths_def)
next
  case False
  then have "pattern_lengths tau \<noteq> []" by (simp add: pattern_lengths_def)
  from reduce_count[OF this] False show ?thesis by (simp add: time_horizon_def)
qed

lemma time_horizon_pos:
  assumes "\<And>p. p \<in> snd ` set tau \<Longrightarrow> p \<noteq> []"
  shows "time_horizon tau = Inr (Lcm (length ` snd ` set tau))"
proof -
  have "0 \<notin> set (pattern_lengths tau)"
    using assms unfolding pattern_lengths_def by force
  then have "count_list (pattern_lengths tau) 0 = 0" by (simp add: count_list_0_iff)
  moreover have "set (pattern_lengths tau) = length ` snd ` set tau"
    unfolding pattern_lengths_def by (simp add: image_image)
  ultimately show ?thesis unfolding time_horizon_cases by simp
qed

lemma time_horizon_positive:
  assumes "time_horizon tau = Inr th" and "0 < th"
  shows "\<forall>p \<in> snd ` set tau. p \<noteq> []"
proof -
  have "count_list (pattern_lengths tau) 0 = 0"
    using assms unfolding time_horizon_cases by (auto split: if_splits)
  then have "0 \<notin> set (pattern_lengths tau)" by (simp add: count_list_0_iff)
  then show ?thesis unfolding pattern_lengths_def by force
qed

lemma Lcm_lengths_pos:
  assumes "count_list (pattern_lengths tau) 0 = 0"
  shows "0 < Lcm (set (pattern_lengths tau))"
proof -
  have "0 \<notin> set (pattern_lengths tau)" using assms by (simp add: count_list_0_iff)
  moreover have "Lcm (set (pattern_lengths tau)) = 0 \<longleftrightarrow> 0 \<in> set (pattern_lengths tau)"
    by (rule Lcm_0_iff) simp
  ultimately have "Lcm (set (pattern_lengths tau)) \<noteq> 0" by blast
  then show ?thesis by (metis neq0_conv)
qed

subsection \<open>The adjacency matrix\<close>

lemma vertex_index_Some:
  assumes "a \<in> set V"
  shows "\<exists>i. vertex_index V a = Some i \<and> i < length V \<and> V ! i = a"
proof -
  have "a \<in> fst ` set (rev (zip V [0..<length V]))"
    using assms by (simp add: map_fst_zip[symmetric] del: map_fst_zip) (metis length_upt map_fst_zip minus_nat.diff_0 set_map)
  then obtain i where i: "vertex_index V a = Some i"
    unfolding vertex_index_def by (metis map_of_eq_None_iff not_None_eq)
  then have "(a, i) \<in> set (zip V [0..<length V])"
    unfolding vertex_index_def by (auto dest: map_of_SomeD)
  then obtain n where "V ! n = a" "[0..<length V] ! n = i" "n < length V"
    by (auto simp: in_set_zip)
  then have "i < length V \<and> V ! i = a" by simp
  with i show ?thesis by blast
qed

lemma symbol_at_adjancy:
  assumes "a \<in> set V" and "b \<in> set V"
  shows "symbol_at (adjancy V tau) (vertex_index V) a b t =
     (if pattern_of tau a b = [] then Inl ZeroDivisionError else Inr (sym tau a b t))"
proof -
  obtain i where i: "vertex_index V a = Some i" "i < length V" "V ! i = a"
    using vertex_index_Some[OF assms(1)] by blast
  obtain j where j: "vertex_index V b = Some j" "j < length V" "V ! j = b"
    using vertex_index_Some[OF assms(2)] by blast
  have "adjancy V tau ! i ! j = pattern_of tau (V ! i) (V ! j)"
    using i(2) j(2) by (simp add: adjancy_def pattern_of_def)
  then have "adjancy V tau ! i ! j = pattern_of tau a b"
    using i(3) j(3) by simp
  moreover have "length (adjancy V tau) = length V" "length (adjancy V tau ! i) = length V"
    using i by (simp_all add: adjancy_def)
  ultimately show ?thesis using i j by (simp add: symbol_at_def sym_def)
qed

lemma pattern_of_nonempty:
  assumes "\<forall>p \<in> snd ` set tau. p \<noteq> []"
  shows "pattern_of tau a b \<noteq> []"
proof -
  have "p \<noteq> []" if "map_of tau e = Some p" for e p
    using that assms by (force dest: map_of_SomeD)
  then show ?thesis unfolding pattern_of_def by (auto split: option.splits)
qed

lemma map_of_static_tau:
  "map_of (static_tau E) e = (if e \<in> set E then Some ''1'' else None)"
proof -
  have "map_of (map (\<lambda>e. (e, ''1'')) xs) e = (if e \<in> set xs then Some ''1'' else None)" for xs :: "'a edge list"
    by (induction xs) auto
  then show ?thesis unfolding static_tau_def by simp
qed

subsection \<open>The arcs\<close>

lemma valid_flag_eq:
  assumes "length c0 = length c1" and "set c0 \<subseteq> set V" and "set c1 \<subseteq> set V"
      and "\<forall>p \<in> snd ` set tau. p \<noteq> []"
  shows "valid_flag (adjancy V tau) (vertex_index V) t0 c0 c1 =
         Inr (\<forall>i<length c0. c0 ! i = c1 ! i \<or> sym tau (c0 ! i) (c1 ! i) t0 \<noteq> CHR ''0'')"
  using assms(1-3)
proof (induction c0 c1 rule: list_induct2)
  case Nil
  then show ?case by simp
next
  case (Cons a c0 b c1)
  have s: "symbol_at (adjancy V tau) (vertex_index V) a b t0 = Inr (sym tau a b t0)"
    using Cons.prems pattern_of_nonempty[OF assms(4)] by (simp add: symbol_at_adjancy)
  have IH: "valid_flag (adjancy V tau) (vertex_index V) t0 c0 c1 =
         Inr (\<forall>i<length c0. c0 ! i = c1 ! i \<or> sym tau (c0 ! i) (c1 ! i) t0 \<noteq> CHR ''0'')"
    using Cons by simp
  show ?case
    by (simp add: s IH All_less_Suc2)
qed

lemma arc_body_legal:
  assumes "length c0 = length c1" and "set c0 \<subseteq> set V" and "set c1 \<subseteq> set V"
      and "r0 \<in> set V" and "r1 \<in> set V" and "0 < th"
      and "\<forall>p \<in> snd ` set tau. p \<noteq> []"
  shows "arc_body (adjancy V tau) (vertex_index V) th A ((c0, r0, s0, t0), (c1, r1, s1, t1)) =
         Inr (if legal tau th ((c0, r0, s0, t0), (c1, r1, s1, t1))
              then A @ [((c0, r0, s0, t0), (c1, r1, s1, t1))] else A)"
proof -
  have v: "valid_flag (adjancy V tau) (vertex_index V) t c0 c1 =
         Inr (\<forall>i<length c0. c0 ! i = c1 ! i \<or> sym tau (c0 ! i) (c1 ! i) t \<noteq> CHR ''0'')" for t
    using assms by (intro valid_flag_eq) simp_all
  have s: "symbol_at (adjancy V tau) (vertex_index V) a b t = Inr (sym tau a b t)"
    if "a \<in> set V" "b \<in> set V" for a b t
    using that pattern_of_nonempty[OF assms(7)] by (simp add: symbol_at_adjancy)
  show ?thesis
    unfolding arc_body_def legal_def using assms(4,5,6) by (auto simp: v s)
qed

lemma add_to_arcs_legal:
  assumes "length c0 = length c1" and "set c0 \<subseteq> set V" and "set c1 \<subseteq> set V"
      and "r0 \<in> set V" and "r1 \<in> set V" and "0 < th"
      and "\<forall>p \<in> snd ` set tau. p \<noteq> []"
  shows "add_to_arcs names (adjancy V tau) (vertex_index V) th A ((c0, r0, s0, t0), (c1, r1, s1, t1)) =
         Inr (if legal tau th ((c0, r0, s0, t0), (c1, r1, s1, t1))
              then A @ [((c0, r0, s0, t0), (c1, r1, s1, t1))] else A)"
  unfolding add_to_arcs_def arc_body_legal[OF assms] by simp

lemma add_to_arcs_source:
  assumes "add_to_arcs names adj vi th A p = Inr A'"
  shows "A' = A \<or> (A' = A @ [p] \<and> fst (snd (fst p)) \<notin> set (fst (fst p)))"
proof -
  obtain c0 r0 s0 t0 c1 r1 s1 t1 where p: "p = ((c0, r0, s0, t0), (c1, r1, s1, t1))"
    by (metis prod.collapse)
  from assms have "arc_body adj vi th A p = Inr A'"
    unfolding add_to_arcs_def by (auto split: sum.splits)
  then show ?thesis unfolding p arc_body_def
    by (auto split: if_splits sum.splits)
qed

lemma sequential_pool_appends:
  assumes "sequential_pool f A ps = Inr B" and "x \<in> set B"
      and "\<And>A0 p A1. f A0 p = Inr A1 \<Longrightarrow> A1 = A0 \<or> A1 = A0 @ [p]"
  shows "x \<in> set A \<or> (\<exists>A0. f A0 x = Inr (A0 @ [x]))"
  using assms(1)
proof (induction ps arbitrary: A)
  case Nil
  then show ?case using assms(2) by simp
next
  case (Cons p ps)
  from Cons.prems obtain A' where A': "f A p = Inr A'" "sequential_pool f A' ps = Inr B"
    by (auto split: sum.splits)
  from Cons.IH[OF A'(2)] have "x \<in> set A' \<or> (\<exists>A0. f A0 x = Inr (A0 @ [x]))" .
  moreover from assms(3)[OF A'(1)] have "A' = A \<or> A' = A @ [p]" .
  ultimately show ?case using A'(1) by auto
qed

lemma only_appends_sequential_pool:
  "only_appends sequential_pool (add_to_arcs names adj vi th)"
  unfolding only_appends_def
proof (intro allI impI)
  fix A ps B x
  assume "sequential_pool (add_to_arcs names adj vi th) A ps = Inr B" and "x \<in> set B"
  then show "x \<in> set A \<or> (\<exists>A0. add_to_arcs names adj vi th A0 x = Inr (A0 @ [x]))"
  proof (rule sequential_pool_appends)
    fix A0 p A1
    assume "add_to_arcs names adj vi th A0 p = Inr A1"
    from add_to_arcs_source[OF this] show "A1 = A0 \<or> A1 = A0 @ [p]" by blast
  qed
qed

lemma get_game_graph_Inr:
  assumes "get_game_graph names pool V E tau k = Inr (vs, A)"
  shows "\<exists>th. time_horizon (tau_or_static E tau) = Inr th \<and> V_gg V k th = Inr vs \<and>
           ''mp'' \<in> set names \<and>
           pool (add_to_arcs names (adjancy V (tau_or_static E tau)) (vertex_index V) th) []
             (List.product vs vs) = Inr A"
  using assms unfolding get_game_graph_def Let_def lookup_global_def
  by (auto split: sum.splits if_splits)

lemma mp_unbound: "lookup_global module_globals ''mp'' = Inl NameError"
  by (simp add: lookup_global_def module_globals_def)

text \<open>
  With the names that the module binds every call raises: the exception of the time
  horizon or of the states when there is one, and \<^verbatim>\<open>NameError\<close> at line 84 otherwise,
  whatever the pool is.
\<close>

lemma get_game_graph_module:
  "get_game_graph module_globals pool V E tau k =
     Inl (if 2 \<le> count_list (pattern_lengths (tau_or_static E tau)) 0 then ZeroDivisionError
          else if count_list (pattern_lengths (tau_or_static E tau)) 0 = 0 \<and> k < 0 then ValueError
          else NameError)"
proof -
  define n where "n = count_list (pattern_lengths (tau_or_static E tau)) 0"
  have "get_game_graph module_globals pool V E tau k =
     Inl (if 2 \<le> n then ZeroDivisionError else if n = 0 \<and> k < 0 then ValueError else NameError)"
  proof -
    consider "n = 0" "k < 0" | "n = 0" "0 \<le> k" | "n = 1" | "2 \<le> n" by linarith
    then show ?thesis
    proof cases
      case 1
      then have "time_horizon (tau_or_static E tau) = Inr (Lcm (set (pattern_lengths (tau_or_static E tau))))"
        unfolding time_horizon_cases n_def by simp
      moreover have "V_gg V k (Lcm (set (pattern_lengths (tau_or_static E tau)))) = Inl ValueError"
        using 1 Lcm_lengths_pos unfolding n_def by (intro V_gg_negative) simp_all
      ultimately show ?thesis using 1 by (simp add: get_game_graph_def)
    next
      case 2
      then have "time_horizon (tau_or_static E tau) = Inr (Lcm (set (pattern_lengths (tau_or_static E tau))))"
        unfolding time_horizon_cases n_def by simp
      then show ?thesis using 2 by (simp add: get_game_graph_def V_gg_nonneg mp_unbound)
    next
      case 3
      then have "time_horizon (tau_or_static E tau) = Inr 0"
        unfolding time_horizon_cases n_def by simp
      then show ?thesis using 3 by (simp add: get_game_graph_def V_gg_zero mp_unbound)
    next
      case 4
      then have "time_horizon (tau_or_static E tau) = Inl ZeroDivisionError"
        unfolding time_horizon_cases n_def by simp
      then show ?thesis using 4 by (simp add: get_game_graph_def)
    qed
  qed
  then show ?thesis unfolding n_def .
qed

lemma K2_game_graph:
  "get_game_graph pool_globals sequential_pool [1::nat, 2] [(1, 2)] None 1 =
     Inr (K2_states, K2_arcs)"
  by code_simp

text \<open>
  The states of the triangle are the states that the module asserts, and one call of
  \<open>add_to_arcs\<close> on every pair of them gives the arcs that it asserts.
\<close>

lemma K3_assertions:
  "(case get_game_graph pool_globals sequential_pool [1::nat, 2, 3] [(1, 2), (2, 3), (3, 1)] None 1 of
      Inl e \<Rightarrow> False
    | Inr (vs, A) \<Rightarrow> set vs = K3_assert_V_gg \<and> set A = K3_assert_A_gg)"
  by code_simp

subsection \<open>The reachability game and the verdict\<close>

lemma fold_partition_step:
  "fold partition_step vs (S0, S1, F) =
     (S0 @ filter (\<lambda>v. \<not> turn_of v) vs, S1 @ filter turn_of vs,
      F @ filter (\<lambda>v. robber_of v \<in> set (cops_of v)) vs)"
proof (induction vs arbitrary: S0 S1 F)
  case Nil
  show ?case by simp
next
  case (Cons v vs)
  obtain c r s t where v: "v = (c, r, s, t)" by (metis prod.collapse)
  have step: "partition_step v (S0, S1, F) =
      (if turn_of v then S0 else S0 @ [v], if turn_of v then S1 @ [v] else S1,
       if robber_of v \<in> set (cops_of v) then F @ [v] else F)"
    by (simp add: partition_step_def v turn_of_def robber_of_def cops_of_def Let_def)
  show ?case
    by (simp add: step Cons.IH)
qed

lemma robbers_of_Nil: "robbers_of [] c = {}"
  by (simp add: robbers_of_def)

lemma robbers_of_Cons:
  "robbers_of ((c', r, s, t) # att) c =
     (if t = 0 \<and> \<not> s \<and> c' = c then insert r (robbers_of att c) else robbers_of att c)"
  unfolding robbers_of_def by auto

lemma map_of_class_step:
  "map_of (class_step (c', r, s, t) sc) c =
     (if t = 0 \<and> \<not> s \<and> c' = c
      then Some (insert r (case map_of sc c of None \<Rightarrow> {} | Some cls \<Rightarrow> cls))
      else map_of sc c)"
  unfolding class_step_def by (auto simp: update_conv' split: option.splits)

lemma map_of_fold_class_step:
  "map_of (fold class_step att sc) c =
     (if robbers_of att c = {} then map_of sc c
      else Some ((case map_of sc c of None \<Rightarrow> {} | Some cls \<Rightarrow> cls) \<union> robbers_of att c))"
proof (induction att arbitrary: sc)
  case Nil
  show ?case by (simp add: robbers_of_Nil)
next
  case (Cons v att)
  obtain c' r s t where v: "v = (c', r, s, t)" by (metis prod.collapse)
  show ?case
    unfolding v by (auto simp: Cons.IH map_of_class_step robbers_of_Cons split: option.splits)
qed

lemma distinct_class_step: "distinct (map fst sc) \<Longrightarrow> distinct (map fst (class_step v sc))"
  unfolding class_step_def by (auto simp: distinct_update split: prod.splits option.splits)

lemma distinct_fold_class_step:
  "distinct (map fst sc) \<Longrightarrow> distinct (map fst (fold class_step att sc))"
  by (induction att arbitrary: sc) (simp_all add: distinct_class_step)

lemma some_class_full_iff: "some_class_full n xs \<longleftrightarrow> (\<exists>cls \<in> set xs. card cls = n)"
  by (induction xs) auto

lemma verdict_iff:
  "verdict V att \<longleftrightarrow> (\<exists>c. robbers_of att c \<noteq> {} \<and> card (robbers_of att c) = length V)"
proof -
  have d: "distinct (map fst (starting_classes att))"
    unfolding starting_classes_def by (intro distinct_fold_class_step) simp
  have m: "map_of (starting_classes att) c =
           (if robbers_of att c = {} then None else Some (robbers_of att c))" for c
    unfolding starting_classes_def map_of_fold_class_step by simp
  have "verdict V att \<longleftrightarrow> (\<exists>c cls. (c, cls) \<in> set (starting_classes att) \<and> card cls = length V)"
    unfolding verdict_def some_class_full_iff by force
  also have "\<dots> \<longleftrightarrow> (\<exists>c cls. map_of (starting_classes att) c = Some cls \<and> card cls = length V)"
    using d by simp
  also have "\<dots> \<longleftrightarrow> (\<exists>c. robbers_of att c \<noteq> {} \<and> card (robbers_of att c) = length V)"
    unfolding m by auto
  finally show ?thesis .
qed

section \<open>The claims\<close>

subsection \<open>C1: edges without a pattern\<close>

text \<open>
  C1 says that an edge of \<open>E\<close> that a given \<open>tau\<close> does not map is always present, and that
  with an empty \<open>tau\<close> the game graph is that of the static graph. The code does not do
  this: line 34 gives every pair without a pattern the pattern \<^verbatim>\<open>'0'\<close>, and \<open>E\<close> is read
  only when \<open>tau\<close> is \<^verbatim>\<open>None\<close> (line 28). For the vertices 1 and 2, the edge \<open>(1, 2)\<close> and
  the empty dictionary the symbol of the edge at time 0 is \<^verbatim>\<open>'0'\<close>, where the static
  graph has \<^verbatim>\<open>'1'\<close>.
\<close>

theorem unmapped_edge_counterexample:
  "(1::nat, 2::nat) \<in> set [(1, 2)] \<and>
   map_of ([] :: nat presence) (1, 2) = None \<and> map_of ([] :: nat presence) (2, 1) = None \<and>
   presence_symbol [1::nat, 2] [(1, 2)] (Some []) 1 2 0 = Inr CHR ''0'' \<and>
   presence_symbol [1::nat, 2] [(1, 2)] None 1 2 0 = Inr CHR ''1''"
proof -
  have 1: "presence_symbol [1::nat, 2] [(1, 2)] (Some []) 1 2 0 = Inr CHR ''0''"
    by code_simp
  have 2: "presence_symbol [1::nat, 2] [(1, 2)] None 1 2 0 = Inr CHR ''1''"
    by code_simp
  show ?thesis using 1 2 by simp
qed

text \<open>
  C1 as the code has it: for two vertices of \<open>V\<close>, a pair that the given dictionary maps
  in neither direction has the symbol \<^verbatim>\<open>'0'\<close> at every time, whether it is an edge of \<open>E\<close>
  or not; when \<open>tau\<close> is not given, every edge of \<open>E\<close> has the symbol \<^verbatim>\<open>'1'\<close> at every time.
\<close>

theorem unmapped_pair_absent:
  assumes "a \<in> set V" and "b \<in> set V"
  shows "(map_of d (a, b) = None \<and> map_of d (b, a) = None \<longrightarrow>
            presence_symbol V E (Some d) a b t = Inr CHR ''0'') \<and>
         ((a, b) \<in> set E \<or> (b, a) \<in> set E \<longrightarrow>
            presence_symbol V E None a b t = Inr CHR ''1'')"
proof -
  have "presence_symbol V E (Some d) a b t = Inr CHR ''0''"
    if "map_of d (a, b) = None \<and> map_of d (b, a) = None"
  proof -
    have "pattern_of d a b = ''0''" using that by (simp add: pattern_of_def)
    then show ?thesis
      unfolding presence_symbol_def tau_or_static_def using assms
      by (simp add: symbol_at_adjancy sym_def)
  qed
  moreover have "presence_symbol V E None a b t = Inr CHR ''1''"
    if "(a, b) \<in> set E \<or> (b, a) \<in> set E"
  proof -
    have "pattern_of (static_tau E) a b = ''1''"
      using that by (auto simp: pattern_of_def map_of_static_tau)
    then show ?thesis
      unfolding presence_symbol_def tau_or_static_def using assms
      by (simp add: symbol_at_adjancy sym_def)
  qed
  ultimately show ?thesis by blast
qed

theorem unmapped_pair_absent_witness:
  "(1::nat) \<in> set [1, 2] \<and> (2::nat) \<in> set [1, 2] \<and>
   presence_symbol [1::nat, 2] [(1, 2)] (Some []) 1 2 5 = Inr CHR ''0'' \<and>
   presence_symbol [1::nat, 2] [(1, 2)] None 1 2 5 = Inr CHR ''1''"
proof -
  have a: "(1::nat) \<in> set [1, 2]" and b: "(2::nat) \<in> set [1, 2]" by simp_all
  from unmapped_pair_absent[OF a b, of "[]" "[(1, 2)]" 5] a b show ?thesis by simp
qed

subsection \<open>C2: the names that the module does not bind\<close>

text \<open>
  C2 says that every call of \<open>get_game_graph\<close> raises \<^verbatim>\<open>NameError\<close>. The name \<^verbatim>\<open>mp\<close> is
  looked up at line 84, after the time horizon and the states have been computed, and
  these raise first on some inputs: with two empty patterns line 41 divides by zero.
\<close>

theorem two_empty_patterns_counterexample:
  "get_game_graph module_globals idle_pool [1::nat, 2, 3] [(1, 2), (2, 3)]
     (Some [((1, 2), ''''), ((2, 3), '''')]) 1 = Inl ZeroDivisionError"
  by code_simp

text \<open>
  C2 as the code has it: with the names that the module binds, every call of
  \<open>get_game_graph\<close> raises, and so does every call of \<open>is_kcop_win\<close>, whatever the pool
  and the function \<^verbatim>\<open>get_attractor\<close> are. The exception is \<^verbatim>\<open>ZeroDivisionError\<close> when
  two or more patterns are empty, \<^verbatim>\<open>ValueError\<close> when no pattern is empty and \<open>k\<close> is
  negative, and \<^verbatim>\<open>NameError\<close> in every other case.
\<close>

theorem get_game_graph_raises:
  "get_game_graph module_globals pool V E tau k =
     Inl (if 2 \<le> count_list (pattern_lengths (tau_or_static E tau)) 0 then ZeroDivisionError
          else if count_list (pattern_lengths (tau_or_static E tau)) 0 = 0 \<and> k < 0 then ValueError
          else NameError) \<and>
   is_kcop_win module_globals pool get_attractor V E tau k =
     Inl (if 2 \<le> count_list (pattern_lengths (tau_or_static E tau)) 0 then ZeroDivisionError
          else if count_list (pattern_lengths (tau_or_static E tau)) 0 = 0 \<and> k < 0 then ValueError
          else NameError)"
  unfolding is_kcop_win_def get_game_graph_module by simp

theorem get_game_graph_raises_witness:
  "get_game_graph module_globals idle_pool [1::nat, 2, 3] [(1, 2), (2, 3), (3, 1)] None 1
     = Inl NameError \<and>
   is_kcop_win module_globals idle_pool all_states [1::nat, 2, 3] [(1, 2), (2, 3), (3, 1)] None 1
     = Inl NameError"
  using get_game_graph_raises[of idle_pool "[1::nat, 2, 3]" "[(1, 2), (2, 3), (3, 1)]" None 1 all_states]
  by (simp add: tau_or_static_def static_tau_def pattern_lengths_def)

subsection \<open>C3: the moves of the cops\<close>

text \<open>
  C3 says that the arcs that \<open>get_game_graph\<close> produces contain the pair of two states
  as a move of the cops exactly when the move is legal. The function \<open>add_to_arcs\<close>
  follows this rule on the pair that it is given (lemma \<open>add_to_arcs_legal\<close>), and the
  module asserts the arcs of the rule (lines 156 to 185), but \<open>get_game_graph\<close> does
  not return them. On the triangle of line 144: the call raises \<^verbatim>\<open>NameError\<close> whatever
  the pool is; \<open>add_to_arcs\<close> appends the move of the cop from 1 to 2 with the robber on
  2; and this arc is among the arcs that the module asserts.
\<close>

theorem cop_move_arc_not_returned:
  "get_game_graph module_globals pool [1::nat, 2, 3] [(1, 2), (2, 3), (3, 1)] None 1
     = Inl NameError \<and>
   add_to_arcs module_globals
     (adjancy [1::nat, 2, 3] (tau_or_static [(1, 2), (2, 3), (3, 1)] None))
     (vertex_index [1::nat, 2, 3]) 1 [] (([1], 2, False, 0), ([2], 2, True, 0))
     = Inr [(([1], 2, False, 0), ([2], 2, True, 0))] \<and>
   (([1], 2, False, 0), ([2], 2, True, 0)) \<in> K3_assert_A_gg"
proof -
  have 1: "get_game_graph module_globals pool [1::nat, 2, 3] [(1, 2), (2, 3), (3, 1)] None 1
     = Inl NameError"
    unfolding get_game_graph_module
    by (simp add: tau_or_static_def static_tau_def pattern_lengths_def)
  have 2: "add_to_arcs module_globals
     (adjancy [1::nat, 2, 3] (tau_or_static [(1, 2), (2, 3), (3, 1)] None))
     (vertex_index [1::nat, 2, 3]) 1 [] (([1], 2, False, 0), ([2], 2, True, 0))
     = Inr [(([1], 2, False, 0), ([2], 2, True, 0))]"
    by code_simp
  have 3: "(([1], 2, False, 0), ([2], 2, True, 0)) \<in> K3_assert_A_gg"
    by (simp add: K3_assert_A_gg_def)
  show ?thesis using 1 2 3 by simp
qed

subsection \<open>C4: the moves of the robber\<close>

text \<open>
  C4 says that the arcs that \<open>get_game_graph\<close> produces contain the pair of two states
  as a move of the robber exactly when the move is legal, with the time wrapping at the
  time horizon. The function \<open>add_to_arcs\<close> follows this rule on the pair that it is
  given (lemma \<open>add_to_arcs_legal\<close>), and the module asserts such arcs (line 287), but
  \<open>get_game_graph\<close> does not return them. On the path of line 244, whose time horizon
  is 2: the call raises \<^verbatim>\<open>NameError\<close> whatever the pool is, and \<open>add_to_arcs\<close> appends
  the move of the robber from 2 to 3 at time 1, which wraps to time 0.
\<close>

theorem robber_move_arc_not_returned:
  "get_game_graph module_globals pool [1::nat, 2, 3] [(1, 2), (2, 3)]
     (Some [((1, 2), ''1''), ((2, 3), ''01'')]) 1 = Inl NameError \<and>
   time_horizon (tau_or_static [(1::nat, 2::nat), (2, 3)] (Some [((1, 2), ''1''), ((2, 3), ''01'')]))
     = Inr 2 \<and>
   add_to_arcs module_globals
     (adjancy [1::nat, 2, 3] (tau_or_static [(1, 2), (2, 3)] (Some [((1, 2), ''1''), ((2, 3), ''01'')])))
     (vertex_index [1::nat, 2, 3]) 2 [] (([1], 2, True, 1), ([1], 3, False, 0))
     = Inr [(([1], 2, True, 1), ([1], 3, False, 0))]"
proof -
  have 1: "get_game_graph module_globals pool [1::nat, 2, 3] [(1, 2), (2, 3)]
     (Some [((1, 2), ''1''), ((2, 3), ''01'')]) 1 = Inl NameError"
    unfolding get_game_graph_module
    by (simp add: tau_or_static_def pattern_lengths_def)
  have 2: "time_horizon (tau_or_static [(1::nat, 2::nat), (2, 3)] (Some [((1, 2), ''1''), ((2, 3), ''01'')]))
     = Inr 2"
    by code_simp
  have 3: "add_to_arcs module_globals
     (adjancy [1::nat, 2, 3] (tau_or_static [(1, 2), (2, 3)] (Some [((1, 2), ''1''), ((2, 3), ''01'')])))
     (vertex_index [1::nat, 2, 3]) 2 [] (([1], 2, True, 1), ([1], 3, False, 0))
     = Inr [(([1], 2, True, 1), ([1], 3, False, 0))]"
    by code_simp
  show ?thesis using 1 2 3 by simp
qed

subsection \<open>C5: the verdict\<close>

text \<open>
  C5 says that \<open>is_kcop_win\<close> returns a truth value, which is true exactly when the
  attractor holds, for some tuple of cops, every position of the robber. The lines 128 to
  139 compute this from an attractor (lemma \<open>verdict_iff\<close>), and the module asserts the
  value for the triangle (line 339), but \<open>is_kcop_win\<close> calls \<open>get_game_graph\<close> first and
  returns nothing: on the triangle of line 336 the call raises \<^verbatim>\<open>NameError\<close>, whatever
  the pool and the function \<^verbatim>\<open>get_attractor\<close> are.
\<close>

theorem is_kcop_win_not_returned:
  "is_kcop_win module_globals pool get_attractor [1::nat, 2, 3] [(1, 2), (2, 3), (1, 3)]
     (Some [((1, 2), ''1''), ((2, 3), ''1''), ((1, 3), ''1'')]) 1 = Inl NameError"
  unfolding is_kcop_win_def get_game_graph_module
  by (simp add: tau_or_static_def pattern_lengths_def)

subsection \<open>C6: an empty pattern\<close>

text \<open>
  C6 says that an empty pattern is rejected with an error of the configuration, and not
  by a division by zero or with a degenerate result. The code has no check of the
  patterns: with one empty pattern the time horizon is 0 and the list of the states is
  empty, without an exception, and with two empty patterns line 41 divides by zero.
\<close>

theorem empty_pattern_counterexample:
  "time_horizon [((1::nat, 2::nat), '''')] = Inr 0 \<and>
   V_gg [1::nat, 2] 1 0 = Inr [] \<and>
   time_horizon [((1::nat, 2::nat), ''''), ((2, 3), '''')] = Inl ZeroDivisionError"
proof -
  have 1: "time_horizon [((1::nat, 2::nat), '''')] = Inr 0" by code_simp
  have 2: "V_gg [1::nat, 2] 1 0 = Inr []" by code_simp
  have 3: "time_horizon [((1::nat, 2::nat), ''''), ((2, 3), '''')] = Inl ZeroDivisionError"
    by code_simp
  show ?thesis using 1 2 3 by simp
qed

text \<open>
  C6 as the code has it: when some pattern of the dictionary is empty, no check rejects
  it. If exactly one pattern is empty, the time horizon is 0, the list of the states is
  empty, and the call ends in the \<^verbatim>\<open>NameError\<close> of line 84 that every call ends in; if
  two or more are empty, the computation of the time horizon, and with it the call,
  raises \<^verbatim>\<open>ZeroDivisionError\<close>.
\<close>

theorem empty_pattern_not_rejected:
  assumes "[] \<in> snd ` set d"
  shows "time_horizon d =
           (if count_list (pattern_lengths d) 0 = 1 then Inr 0 else Inl ZeroDivisionError) \<and>
         V_gg V k 0 = Inr [] \<and>
         get_game_graph module_globals pool V E (Some d) k =
           Inl (if count_list (pattern_lengths d) 0 = 1 then NameError else ZeroDivisionError)"
proof -
  have "0 \<in> set (pattern_lengths d)" using assms unfolding pattern_lengths_def by force
  then have n: "count_list (pattern_lengths d) 0 \<noteq> 0" by (simp add: count_list_0_iff)
  then have "time_horizon d =
           (if count_list (pattern_lengths d) 0 = 1 then Inr 0 else Inl ZeroDivisionError)"
    unfolding time_horizon_cases by simp
  moreover have "get_game_graph module_globals pool V E (Some d) k =
           Inl (if count_list (pattern_lengths d) 0 = 1 then NameError else ZeroDivisionError)"
    unfolding get_game_graph_module using n by (auto simp: tau_or_static_def)
  ultimately show ?thesis by (simp add: V_gg_zero)
qed

theorem empty_pattern_not_rejected_witness:
  "time_horizon [((1::nat, 2::nat), ''01''), ((2, 3), '''')] = Inr 0 \<and>
   V_gg [1::nat, 2, 3] 1 0 = Inr [] \<and>
   get_game_graph module_globals idle_pool [1::nat, 2, 3] [(1, 2), (2, 3)]
     (Some [((1, 2), ''01''), ((2, 3), '''')]) 1 = Inl NameError"
proof -
  have h: "[] \<in> snd ` set [((1::nat, 2::nat), ''01''), ((2, 3), '''')]" by simp
  have c: "count_list (pattern_lengths [((1::nat, 2::nat), ''01''), ((2, 3), '''')]) 0 = 1"
    by (simp add: pattern_lengths_def)
  from empty_pattern_not_rejected[OF h, of "[1, 2, 3]" 1 idle_pool "[(1, 2), (2, 3)]"] c
  show ?thesis by simp
qed

subsection \<open>C7: fewer cops than one\<close>

text \<open>
  C7 says that a number of cops below one is rejected before the game graph is built.
  The code has no such check: for no cops at all and one vertex, the two states without
  cops are built.
\<close>

theorem no_cops_counterexample:
  "V_gg [1::nat] 0 1 = Inr [([], 1, False, 0), ([], 1, True, 0)]"
  by code_simp

text \<open>
  C7 as the code has it: with \<open>k = 0\<close> the list of states is built, and its states are the
  states with no cop, one for every vertex, turn and time; with a negative \<open>k\<close> the
  comprehension of line 45 raises \<^verbatim>\<open>ValueError\<close> when the time horizon is not 0, and
  yields no state when it is 0.
\<close>

theorem k_not_validated:
  "(\<exists>vs. V_gg V 0 th = Inr vs \<and> set vs = {([], r, s, t) | r s t. r \<in> set V \<and> t < th}) \<and>
   (k < 0 \<and> 0 < th \<longrightarrow> V_gg V k th = Inl ValueError) \<and>
   (k < 0 \<longrightarrow> V_gg V k 0 = Inr [])"
proof -
  have "set (states_of V 0 th) = {([], r, s, t) | r s t. r \<in> set V \<and> t < th}"
  proof (rule set_eqI)
    fix v :: "'a state"
    obtain c r s t where v: "v = (c, r, s, t)" by (metis prod.collapse)
    show "v \<in> set (states_of V 0 th) \<longleftrightarrow> v \<in> {([], r, s, t) | r s t. r \<in> set V \<and> t < th}"
      unfolding v in_states_of by auto
  qed
  then have "\<exists>vs. V_gg V 0 th = Inr vs \<and> set vs = {([], r, s, t) | r s t. r \<in> set V \<and> t < th}"
    using V_gg_nonneg[of 0 V th] by simp
  then show ?thesis by (simp add: V_gg_negative V_gg_zero)
qed

theorem k_not_validated_witness:
  "(\<exists>vs. V_gg [1::nat] 0 1 = Inr vs \<and> set vs = {([], r, s, t) | r s t. r \<in> set [1] \<and> t < 1}) \<and>
   V_gg [1::nat] (- 1) 1 = Inl ValueError \<and> V_gg [1::nat] (- 1) 0 = Inr []"
  using k_not_validated[of "[1::nat]" 1 "- 1"] by simp

subsection \<open>C8: the time horizon\<close>

text \<open>
  C8 says that for patterns that are not empty the time horizon is the least common
  multiple of their lengths, is 1 for an empty dictionary, and that the times of the
  states are exactly the numbers below it. The last part fails for a graph without
  vertices: the time horizon is 1 and there is no state.
\<close>

theorem time_horizon_lcm_counterexample:
  "time_horizon (tau_or_static ([] :: nat edge list) None) = Inr 1 \<and>
   V_gg ([] :: nat list) 1 1 = Inr [] \<and>
   time_of ` set ([] :: nat state list) \<noteq> {0..<1}"
proof -
  have 1: "time_horizon (tau_or_static ([] :: nat edge list) None) = Inr 1" by code_simp
  have 2: "V_gg ([] :: nat list) 1 1 = Inr []" by code_simp
  show ?thesis using 1 2 by simp
qed

text \<open>
  C8 as the code has it: when no pattern is empty, the time horizon is the least common
  multiple of the lengths of the patterns, it is 1 for the empty dictionary, and, when
  \<open>V\<close> is not empty and \<open>k\<close> is not negative, the times of the states are exactly the
  numbers below the time horizon.
\<close>

theorem time_horizon_lcm:
  assumes "\<forall>p \<in> snd ` set (tau_or_static E tau). p \<noteq> []"
  shows "time_horizon (tau_or_static E tau) = Inr (Lcm (length ` snd ` set (tau_or_static E tau))) \<and>
         (tau_or_static E tau = [] \<longrightarrow> time_horizon (tau_or_static E tau) = Inr 1) \<and>
         (V \<noteq> [] \<and> 0 \<le> k \<longrightarrow>
            (\<exists>vs. V_gg V k (Lcm (length ` snd ` set (tau_or_static E tau))) = Inr vs \<and>
                  time_of ` set vs = {0..<Lcm (length ` snd ` set (tau_or_static E tau))}))"
proof -
  have "time_horizon (tau_or_static E tau) = Inr (Lcm (length ` snd ` set (tau_or_static E tau)))"
    using assms by (intro time_horizon_pos) blast
  moreover have "tau_or_static E tau = [] \<longrightarrow> time_horizon (tau_or_static E tau) = Inr 1"
    by (simp add: time_horizon_def)
  moreover have "\<exists>vs. V_gg V k th = Inr vs \<and> time_of ` set vs = {0..<th}"
    if "V \<noteq> []" "0 \<le> k" for th
    using that by (simp add: V_gg_nonneg time_of_states_of)
  ultimately show ?thesis by blast
qed

theorem time_horizon_lcm_witness:
  "time_horizon (tau_or_static [(1::nat, 2::nat), (2, 3)] (Some [((1, 2), ''1''), ((2, 3), ''01'')])) = Inr 2 \<and>
   (\<exists>vs. V_gg [1::nat, 2, 3] 1 2 = Inr vs \<and> time_of ` set vs = {0..<2})"
proof -
  have h: "\<forall>p \<in> snd ` set (tau_or_static [(1::nat, 2::nat), (2, 3)] (Some [((1, 2), ''1''), ((2, 3), ''01'')])). p \<noteq> []"
    by (simp add: tau_or_static_def)
  have l: "Lcm (length ` snd ` set (tau_or_static [(1::nat, 2::nat), (2, 3)] (Some [((1, 2), ''1''), ((2, 3), ''01'')]))) = 2"
    by (simp add: tau_or_static_def)
  have v: "[1::nat, 2, 3] \<noteq> [] \<and> (0::int) \<le> 1" by simp
  from time_horizon_lcm[OF h, of "[1::nat, 2, 3]" "1::int"]
  have "time_horizon (tau_or_static [(1::nat, 2::nat), (2, 3)] (Some [((1, 2), ''1''), ((2, 3), ''01'')])) = Inr 2"
    and "[1::nat, 2, 3] \<noteq> [] \<and> (0::int) \<le> 1 \<longrightarrow>
         (\<exists>vs. V_gg [1::nat, 2, 3] 1 2 = Inr vs \<and> time_of ` set vs = {0..<2})"
    unfolding l by blast+
  with v show ?thesis by blast
qed

subsection \<open>C9: no arc leaves a capture state\<close>

text \<open>
  C9: in a game graph that \<open>get_game_graph\<close> returns, the source of an arc is never a
  state whose robber is on a cop, whatever its turn and time are. This holds for every
  pool that changes the list of the arcs only through the function that it is given,
  since \<open>add_to_arcs\<close> returns at line 56 before it appends a pair with such a source.
\<close>

theorem capture_state_no_arc:
  assumes "get_game_graph names pool V E tau k = Inr (vs, A_gg)"
      and "\<And>th. only_appends pool
                 (add_to_arcs names (adjancy V (tau_or_static E tau)) (vertex_index V) th)"
      and "((c0, r0, s0, t0), v) \<in> set A_gg"
  shows "r0 \<notin> set c0"
proof -
  from get_game_graph_Inr[OF assms(1)] obtain th where
    run: "pool (add_to_arcs names (adjancy V (tau_or_static E tau)) (vertex_index V) th) []
             (List.product vs vs) = Inr A_gg" by blast
  from assms(2)[of th] run assms(3) obtain A0 where
    "add_to_arcs names (adjancy V (tau_or_static E tau)) (vertex_index V) th A0 ((c0, r0, s0, t0), v)
       = Inr (A0 @ [((c0, r0, s0, t0), v)])"
    unfolding only_appends_def by fastforce
  from add_to_arcs_source[OF this] show ?thesis by simp
qed

theorem capture_state_no_arc_witness:
  "get_game_graph pool_globals sequential_pool [1::nat, 2] [(1, 2)] None 1
     = Inr (K2_states, K2_arcs) \<and>
   (([2], 1, False, 0), ([1], 1, True, 0)) \<in> set K2_arcs \<and> (1::nat) \<notin> set [2]"
proof -
  have a: "(([2], 1, False, 0), ([1], 1, True, 0)) \<in> set K2_arcs" by (simp add: K2_arcs_def)
  from capture_state_no_arc[OF K2_game_graph only_appends_sequential_pool a] K2_game_graph a
  show ?thesis by simp
qed

subsection \<open>C10: the reachability game\<close>

text \<open>
  C10: \<open>game_graph_to_reachability_game\<close> returns the states whose turn flag is false, the
  states whose turn flag is true, the arcs as they are, and the states whose robber is
  on a cop; the first two lists together hold every state, and no state is in both.
\<close>

theorem reachability_game_partition:
  "game_graph_to_reachability_game vs A_gg =
     (filter (\<lambda>v. \<not> turn_of v) vs, filter turn_of vs, A_gg,
      filter (\<lambda>v. robber_of v \<in> set (cops_of v)) vs) \<and>
   set (filter (\<lambda>v. \<not> turn_of v) vs) \<union> set (filter turn_of vs) = set vs \<and>
   set (filter (\<lambda>v. \<not> turn_of v) vs) \<inter> set (filter turn_of vs) = {}"
  unfolding game_graph_to_reachability_game_def fold_partition_step by auto

end
